theory Spec2Isabelle
  imports Main
begin

section \<open>The validate page: data model\<close>

text \<open>
  The session streaming client is the React component \<open>ValidatePage\<close>. Its state is the
  component's \<open>useState\<close> cells and \<open>useRef\<close> cells, together with the transport objects
  (\<open>WebSocket\<close>, \<open>EventSource\<close>) it has created. Every handler of the component is a function
  from the state to the state; the browser calls them one at a time.

  Strings are the UTF-8 encodings of the page's strings, one \<open>char\<close> a byte: equality
  and \<open>includes\<close> on well-formed strings are equality and containment of the encodings.
  \<open>LogLine\<close> is
  \<^verbatim>\<open>{ id: number; type: string; ts?: string; msg: string }\<close>; the lines are built from decoded
  JSON objects, in which \<open>ts\<close> and \<open>msg\<close> may be missing (the code reads \<open>last.msg || ""\<close>),
  so both are optional here.
\<close>

type_synonym AuthUser = string

datatype ResearchResult = ResearchResult string

record LogLine =
  lid :: nat
  ltype :: string
  lts :: "string option"
  lmsg :: "string option"

text \<open>A decoded event, the argument \<open>data\<close> of \<open>handleEvent\<close>.\<close>

record event_data =
  ptype :: string
  pts :: "string option"
  pmsg :: "string option"
  presult :: "ResearchResult option"

text \<open>
  The logical request: the closure variables \<open>ideaTrimmed\<close>, \<open>descTrimmed\<close> and \<open>token\<close> of
  one call of \<open>startResearch\<close>, sent as a frame over the socket and as the query parameters
  of the event source.
\<close>

record request =
  r_idea :: string
  r_description :: string
  r_token :: string

datatype transport = WebSocket | EventSource

text \<open>\<open>close()\<close> with no argument, and \<open>close(code, reason)\<close>.\<close>

datatype close_call = CloseNoCode | CloseCode nat string

text \<open>
  A transport object: its kind, the request its handlers close over, the closure variable
  \<open>wsCompleted\<close> of the socket's handlers, the frames sent with \<open>ws.send\<close>, and the first
  \<open>close\<close> call made on it (\<open>None\<close> while none was made).
\<close>

record conn =
  kind :: transport
  req :: request
  wsCompleted :: bool
  sent :: "request list"
  closed :: "close_call option"

datatype ws_status = StIdle | StWs | StSse | StError

text \<open>
  The component state. \<open>conns\<close> holds every transport object created so far, in creation
  order; \<open>connRef\<close> is \<open>connRef.current\<close>, an index into it. \<open>wsBaseValid\<close> is configuration:
  whether \<open>new WebSocket(wsBase)\<close> accepts the configured address (it throws otherwise).
\<close>

record page =
  user :: "AuthUser option"
  token :: string
  idea :: string
  description :: string
  running :: bool
  done_st :: bool
  lines :: "LogLine list"
  result :: "ResearchResult option"
  error :: string
  activeTab :: string
  termCollapsed :: bool
  wsStatus :: ws_status
  showAuthModal :: bool
  idRef :: nat
  connRef :: "nat option"
  conns :: "conn list"
  wsBaseValid :: bool

definition init :: "bool \<Rightarrow> page" where
  "init ok = \<lparr> user = None, token = [], idea = [], description = [], running = False,
     done_st = False, lines = [], result = None, error = [], activeTab = ''overview'',
     termCollapsed = False, wsStatus = StIdle, showAuthModal = False, idRef = 0,
     connRef = None, conns = [], wsBaseValid = ok \<rparr>"

section \<open>Strings\<close>

text \<open>
  \<open>String.prototype.trim\<close> removes white space and line terminators from both ends.
  These are the code points U+0009 to U+000D, U+0020, U+00A0, U+1680, U+2000 to U+200A,
  U+2028, U+2029, U+202F, U+205F, U+3000 and U+FEFF, here each in its UTF-8 encoding.
\<close>

definition white_space :: "string list" where
  "white_space =
     [[CHR 0x09], [CHR 0x0A], [CHR 0x0B], [CHR 0x0C], [CHR 0x0D], [CHR 0x20],
      [CHR 0xC2, CHR 0xA0], [CHR 0xE1, CHR 0x9A, CHR 0x80],
      [CHR 0xE2, CHR 0x80, CHR 0x80], [CHR 0xE2, CHR 0x80, CHR 0x81],
      [CHR 0xE2, CHR 0x80, CHR 0x82], [CHR 0xE2, CHR 0x80, CHR 0x83],
      [CHR 0xE2, CHR 0x80, CHR 0x84], [CHR 0xE2, CHR 0x80, CHR 0x85],
      [CHR 0xE2, CHR 0x80, CHR 0x86], [CHR 0xE2, CHR 0x80, CHR 0x87],
      [CHR 0xE2, CHR 0x80, CHR 0x88], [CHR 0xE2, CHR 0x80, CHR 0x89],
      [CHR 0xE2, CHR 0x80, CHR 0x8A], [CHR 0xE2, CHR 0x80, CHR 0xA8],
      [CHR 0xE2, CHR 0x80, CHR 0xA9], [CHR 0xE2, CHR 0x80, CHR 0xAF],
      [CHR 0xE2, CHR 0x81, CHR 0x9F], [CHR 0xE3, CHR 0x80, CHR 0x80],
      [CHR 0xEF, CHR 0xBB, CHR 0xBF]]"

text \<open>The length of the first of the sequences \<open>ws\<close> that \<open>s\<close> starts with, 0 if none.\<close>

definition seq_len :: "string list \<Rightarrow> string \<Rightarrow> nat" where
  "seq_len ws s =
     (case find (\<lambda>w. take (length w) s = w) ws of None \<Rightarrow> 0 | Some w \<Rightarrow> length w)"

text \<open>Removing the sequences of \<open>ws\<close> from the start of \<open>s\<close>, as long as there is one.\<close>

function strip :: "string list \<Rightarrow> string \<Rightarrow> string" where
  "strip ws s = (if seq_len ws s = 0 then s else strip ws (drop (seq_len ws s) s))"
  by pat_completeness auto
termination
proof (relation "measure (\<lambda>(ws, s). length s)")
  show "wf (measure (\<lambda>(ws, s). length s))" by simp
next
  fix ws :: "string list" and s :: string
  assume n: "seq_len ws s \<noteq> 0"
  have "seq_len ws s \<le> length s"
  proof (cases "find (\<lambda>w. take (length w) s = w) ws")
    case None
    then show ?thesis by (simp add: seq_len_def)
  next
    case (Some w)
    then have "take (length w) s = w" by (auto simp: find_Some_iff)
    then have "length (take (length w) s) = length w" by simp
    then have "length w \<le> length s" by (simp add: min_def split: if_splits)
    with Some show ?thesis by (simp add: seq_len_def)
  qed
  with n show "((ws, drop (seq_len ws s) s), (ws, s)) \<in> measure (\<lambda>(ws, s). length s)"
    by simp
qed

declare strip.simps [simp del]

definition trimStart :: "string \<Rightarrow> string" where
  "trimStart s = strip white_space s"

definition trimEnd :: "string \<Rightarrow> string" where
  "trimEnd s = rev (strip (map rev white_space) (rev s))"

definition trim :: "string \<Rightarrow> string" where
  "trim s = trimEnd (trimStart s)"

text \<open>\<open>String.prototype.includes\<close>: \<open>sub\<close> occurs in \<open>s\<close> as a contiguous run.\<close>

fun str_includes :: "string \<Rightarrow> string \<Rightarrow> bool" where
  "str_includes [] sub = (sub = [])"
| "str_includes (c # cs) sub = (take (length sub) (c # cs) = sub \<or> str_includes cs sub)"

section \<open>The progress inferencer\<close>

definition is_step :: "LogLine \<Rightarrow> bool" where
  "is_step l = (ltype l = ''step'' \<or> ltype l = ''step_done'')"

text \<open>The chain of marker tests of \<open>currentStep\<close>, on the message of the entry found.\<close>

definition stage_of_msg :: "string \<Rightarrow> int" where
  "stage_of_msg msg =
    (if str_includes msg ''Plan'' then 0
     else if str_includes msg ''1 / 6'' \<or> str_includes msg ''Trends'' then 1
     else if str_includes msg ''2 / 6'' \<or> str_includes msg ''Demand'' then 2
     else if str_includes msg ''3 / 6'' \<or> str_includes msg ''Adopter'' then 3
     else if str_includes msg ''4 / 6'' \<or> str_includes msg ''Funder'' then 4
     else if str_includes msg ''5 / 6'' \<or> str_includes msg ''Community'' then 5
     else if str_includes msg ''6 / 6'' \<or> str_includes msg ''Web'' then 6
     else if str_includes msg ''SYNTHESIS'' then 7
     else 0)"

definition currentStep :: "bool \<Rightarrow> bool \<Rightarrow> LogLine list \<Rightarrow> int" where
  "currentStep dn rn ls =
    (if dn then 8
     else if \<not> rn then - 1
     else if ls = [] then 0
     else (case find is_step (rev ls) of
             None \<Rightarrow> 0
           | Some l \<Rightarrow> stage_of_msg (case lmsg l of None \<Rightarrow> [] | Some m \<Rightarrow> m)))"

text \<open>The terminal renders every line but those of type \<open>ping\<close>.\<close>

definition rendered :: "page \<Rightarrow> LogLine list" where
  "rendered s = filter (\<lambda>l. ltype l \<noteq> ''ping'') (lines s)"

section \<open>The handlers\<close>

definition addLine :: "page \<Rightarrow> string \<Rightarrow> string option \<Rightarrow> string option \<Rightarrow> page" where
  "addLine s ty ts msg =
     s\<lparr> lines := lines s @ [\<lparr> lid = Suc (idRef s), ltype = ty, lts = ts, lmsg = msg \<rparr>],
        idRef := Suc (idRef s) \<rparr>"

text \<open>A \<open>close\<close> call on a transport that was closed before does nothing.\<close>

definition close_conn :: "close_call \<Rightarrow> conn \<Rightarrow> conn" where
  "close_conn cc c = (if closed c = None then c\<lparr> closed := Some cc \<rparr> else c)"

definition close_at :: "nat \<Rightarrow> close_call \<Rightarrow> page \<Rightarrow> page" where
  "close_at i cc s =
     (if i < length (conns s) then s\<lparr> conns := (conns s)[i := close_conn cc (conns s ! i)] \<rparr>
      else s)"

text \<open>
  \<^verbatim>\<open>if (connRef.current instanceof WebSocket) connRef.current.close(...);
  else (connRef.current as EventSource)?.close();\<close>
\<close>

definition close_connRef :: "close_call \<Rightarrow> page \<Rightarrow> page" where
  "close_connRef ws_call s =
     (case connRef s of
        None \<Rightarrow> s
      | Some i \<Rightarrow>
          if i < length (conns s) then
            (case kind (conns s ! i) of
               WebSocket \<Rightarrow> close_at i ws_call s
             | EventSource \<Rightarrow> close_at i CloseNoCode s)
          else s)"

definition handleEvent :: "page \<Rightarrow> event_data \<Rightarrow> page" where
  "handleEvent s d =
     (if ptype d = ''ping'' then s
      else if ptype d = ''complete'' then
        close_connRef CloseNoCode
          (s\<lparr> result := presult d, done_st := True, running := False, termCollapsed := True \<rparr>)
      else if ptype d = ''error'' then
        s\<lparr> error := (case pmsg d of None \<Rightarrow> ''Agent error''
                      | Some m \<Rightarrow> if m = [] then ''Agent error'' else m),
           running := False \<rparr>
      else addLine s (ptype d) (pts d) (pmsg d))"

definition new_conn :: "transport \<Rightarrow> request \<Rightarrow> conn" where
  "new_conn k r = \<lparr> kind = k, req = r, wsCompleted = False, sent = [], closed = None \<rparr>"

definition connection_lost :: string where
  "connection_lost = ''  '' @ [CHR 0xE2, CHR 0x9C, CHR 0x97] @ '' Connection lost ''
     @ [CHR 0xE2, CHR 0x80, CHR 0x94] @ '' is server running on :3001?''"

definition fallbackToSSE :: "page \<Rightarrow> request \<Rightarrow> page" where
  "fallbackToSSE s r =
     s\<lparr> wsStatus := StSse, conns := conns s @ [new_conn EventSource r],
        connRef := Some (length (conns s)) \<rparr>"

definition startResearch :: "page \<Rightarrow> page" where
  "startResearch s =
     (if user s = None then s\<lparr> showAuthModal := True \<rparr>
      else if trim (idea s) = [] \<or> running s then s
      else
        let s1 = s\<lparr> running := True, done_st := False, lines := [], result := None,
                    error := [], termCollapsed := False, activeTab := ''overview'' \<rparr>;
            r = \<lparr> r_idea = trim (idea s), r_description = trim (description s),
                  r_token = token s \<rparr>
        in if wsBaseValid s then
             s1\<lparr> conns := conns s1 @ [new_conn WebSocket r],
                 connRef := Some (length (conns s1)) \<rparr>
           else fallbackToSSE s1 r)"

definition reset :: "page \<Rightarrow> page" where
  "reset s =
     (close_connRef (CloseCode 1000 ''reset'') s)
       \<lparr> running := False, done_st := False, lines := [], result := None, error := [],
         idea := [], description := [], wsStatus := StIdle \<rparr>"

text \<open>The handlers of the socket \<open>i\<close> created by \<open>startResearch\<close>.\<close>

definition ws_onopen :: "nat \<Rightarrow> page \<Rightarrow> page" where
  "ws_onopen i s =
     s\<lparr> wsStatus := StWs,
        conns := (conns s)[i := (conns s ! i)\<lparr> sent := sent (conns s ! i) @ [req (conns s ! i)] \<rparr>] \<rparr>"

definition ws_onmessage :: "nat \<Rightarrow> event_data option \<Rightarrow> page \<Rightarrow> page" where
  "ws_onmessage i raw s =
     (case raw of
        None \<Rightarrow> s
      | Some d \<Rightarrow>
          handleEvent
            (if ptype d = ''complete''
             then s\<lparr> conns := (conns s)[i := (conns s ! i)\<lparr> wsCompleted := True \<rparr>] \<rparr>
             else s) d)"

definition ws_onerror :: "nat \<Rightarrow> page \<Rightarrow> page" where
  "ws_onerror i s = fallbackToSSE (close_at i CloseNoCode s) (req (conns s ! i))"

definition ws_onclose :: "nat \<Rightarrow> nat \<Rightarrow> page \<Rightarrow> page" where
  "ws_onclose i code s =
     (if \<not> wsCompleted (conns s ! i) \<and> code \<noteq> 1000 then fallbackToSSE s (req (conns s ! i))
      else s)"

text \<open>The handlers of the event source \<open>i\<close> created by \<open>fallbackToSSE\<close>.\<close>

definition es_onmessage :: "nat \<Rightarrow> event_data option \<Rightarrow> page \<Rightarrow> page" where
  "es_onmessage i raw s = (case raw of None \<Rightarrow> s | Some d \<Rightarrow> handleEvent s d)"

definition es_onerror :: "nat \<Rightarrow> page \<Rightarrow> page" where
  "es_onerror i s =
     (close_at i CloseNoCode
        ((addLine s ''error'' (Some []) (Some connection_lost))
           \<lparr> running := False, wsStatus := StError \<rparr>))
       \<lparr> error := ''Server connection failed. Run: cd server && node index.js'' \<rparr>"

section \<open>The browser and the user\<close>

text \<open>
  What can happen to the page: the user types, logs in or out, presses start or reset, a
  history item arrives, or a transport object fires one of its events. A decoded message
  is \<open>None\<close> when \<open>JSON.parse\<close> (or the handler under the same \<open>try\<close>) throws.

  The browser calls the handlers of a transport object only: \<open>open\<close> and \<open>message\<close> of a
  socket while no \<open>close\<close> was called on it, \<open>error\<close> and \<open>close\<close> of a socket at any time,
  and \<open>message\<close> and \<open>error\<close> of an event source while no \<open>close\<close> was called on it.
\<close>

datatype event =
    SetIdea string
  | SetDescription string
  | Login AuthUser string
  | Logout
  | HistoryItemOpened string string "ResearchResult option"
  | StartResearch
  | Reset
  | WsOpen nat
  | WsMessage nat "event_data option"
  | WsError nat
  | WsClose nat nat
  | EsMessage nat "event_data option"
  | EsError nat

definition has_kind :: "transport \<Rightarrow> nat \<Rightarrow> page \<Rightarrow> bool" where
  "has_kind k i s = (i < length (conns s) \<and> kind (conns s ! i) = k)"

definition is_open :: "nat \<Rightarrow> page \<Rightarrow> bool" where
  "is_open i s = (i < length (conns s) \<and> closed (conns s ! i) = None)"

fun step :: "page \<Rightarrow> event \<Rightarrow> page" where
  "step s (SetIdea t) = s\<lparr> idea := t \<rparr>"
| "step s (SetDescription t) = s\<lparr> description := t \<rparr>"
| "step s (Login u t) = s\<lparr> token := t, user := Some u, showAuthModal := False \<rparr>"
| "step s Logout = s\<lparr> user := None, token := [] \<rparr>"
| "step s (HistoryItemOpened i d r) =
     (if token s = [] then s
      else s\<lparr> idea := i, description := d, result := r, done_st := True, running := False,
             activeTab := ''overview'', termCollapsed := True, error := [] \<rparr>)"
| "step s StartResearch = startResearch s"
| "step s Reset = reset s"
| "step s (WsOpen i) =
     (if has_kind WebSocket i s \<and> is_open i s then ws_onopen i s else s)"
| "step s (WsMessage i raw) =
     (if has_kind WebSocket i s \<and> is_open i s then ws_onmessage i raw s else s)"
| "step s (WsError i) = (if has_kind WebSocket i s then ws_onerror i s else s)"
| "step s (WsClose i code) = (if has_kind WebSocket i s then ws_onclose i code s else s)"
| "step s (EsMessage i raw) =
     (if has_kind EventSource i s \<and> is_open i s then es_onmessage i raw s else s)"
| "step s (EsError i) =
     (if has_kind EventSource i s \<and> is_open i s then es_onerror i s else s)"

definition run :: "page \<Rightarrow> event list \<Rightarrow> page" where
  "run s evs = foldl step s evs"

text \<open>
  The session status of the specification, read off the flags as the page renders them:
  \<open>done\<close> is tested first (as in \<open>currentStep\<close>), then \<open>running\<close>; an idle page with an error
  message shows the error.
\<close>

datatype status = Idle | Running | Done | Error

definition status_of :: "page \<Rightarrow> status" where
  "status_of s =
     (if done_st s then Done else if running s then Running
      else if error s \<noteq> [] then Error else Idle)"

text \<open>The event sources opened so far: the fallback requests issued.\<close>

definition fallbacks :: "page \<Rightarrow> request list" where
  "fallbacks s = map req (filter (\<lambda>c. kind c = EventSource) (conns s))"

text \<open>What \<open>close_connRef\<close> does to the list of transports.\<close>

definition closing :: "close_call \<Rightarrow> page \<Rightarrow> conn list" where
  "closing wc s = conns (close_connRef wc s)"


section \<open>What a handler does to the log\<close>

text \<open>
  Between two states the log and its counter are the same, or the log was cleared (the
  counter kept), or one line was appended with the next id and a type other than \<open>ping\<close>
  and \<open>complete\<close>.
\<close>

definition log_same :: "page \<Rightarrow> page \<Rightarrow> bool" where
  "log_same s t = (lines t = lines s \<and> idRef t = idRef s)"

definition log_cleared :: "page \<Rightarrow> page \<Rightarrow> bool" where
  "log_cleared s t = (lines t = [] \<and> idRef t = idRef s)"

definition log_appended :: "page \<Rightarrow> page \<Rightarrow> bool" where
  "log_appended s t =
     (lines t \<noteq> [] \<and> butlast (lines t) = lines s \<and> idRef t = Suc (idRef s) \<and>
      lid (last (lines t)) = Suc (idRef s) \<and>
      ltype (last (lines t)) \<noteq> ''ping'' \<and> ltype (last (lines t)) \<noteq> ''complete'')"


definition no_control :: "page \<Rightarrow> bool" where
  "no_control s = (\<forall>l\<in>set (lines s). ltype l \<noteq> ''ping'' \<and> ltype l \<noteq> ''complete'')"


section \<open>Closed and completed transports\<close>

definition is_closed :: "nat \<Rightarrow> page \<Rightarrow> bool" where
  "is_closed i s = (i < length (conns s) \<and> closed (conns s ! i) \<noteq> None)"

definition is_completed :: "nat \<Rightarrow> page \<Rightarrow> bool" where
  "is_completed i s = (i < length (conns s) \<and> wsCompleted (conns s ! i))"

section \<open>Concrete runs\<close>

text \<open>
  A logged-in user starts a run, the socket opens and the worker reports its first step.
\<close>

definition error_trace :: "event list" where
  "error_trace = [Login ''u@x'' ''tok123'', SetIdea ''AI code review tool'', StartResearch,
     WsOpen 0, WsMessage 0 (Some \<lparr> ptype = ''step'', pts = None, pmsg = Some ''Plan Queries'',
       presult = None \<rparr>)]"

definition rate_limited :: event_data where
  "rate_limited = \<lparr> ptype = ''error'', pts = None, pmsg = Some ''rate limited'', presult = None \<rparr>"

definition empty_error :: event_data where
  "empty_error = \<lparr> ptype = ''error'', pts = None, pmsg = Some [], presult = None \<rparr>"


text \<open>
  The socket fails to connect: the browser fires \<open>error\<close> and then \<open>close\<close> with the
  abnormal code 1006 on it.
\<close>

definition failed_socket_trace :: "event list" where
  "failed_socket_trace = [Login ''u@x'' ''tok123'', SetIdea ''AI code review tool'',
     StartResearch, WsError 0, WsClose 0 1006]"

definition the_request :: request where
  "the_request = \<lparr> r_idea = ''AI code review tool'', r_description = [], r_token = ''tok123'' \<rparr>"

text \<open>A step message that carries the markers of two stages.\<close>

definition plan_and_trends :: LogLine where
  "plan_and_trends = \<lparr> lid = 1, ltype = ''step'', lts = None, lmsg = Some ''Plan 1 / 6 Trends'' \<rparr>"




definition ping_event :: event_data where
  "ping_event = \<lparr> ptype = ''ping'', pts = None, pmsg = None, presult = None \<rparr>"

definition plan_line :: "nat \<Rightarrow> LogLine" where
  "plan_line n = \<lparr> lid = n, ltype = ''step'', lts = None, lmsg = Some ''Plan Queries'' \<rparr>"

text \<open>The configured socket address is rejected: the run starts on the event source.\<close>

definition sse_trace :: "event list" where
  "sse_trace = [Login ''u@x'' ''tok123'', SetIdea ''AI code review tool'', StartResearch]"

definition step_event :: event_data where
  "step_event = \<lparr> ptype = ''step'', pts = None, pmsg = Some ''Plan Queries'', presult = None \<rparr>"

definition complete_event :: event_data where
  "complete_event = \<lparr> ptype = ''complete'', pts = None, pmsg = None,
     presult = Some (ResearchResult ''verdict'') \<rparr>"

text \<open>After the socket failed, so that two event sources are open, the user resets.\<close>

definition reset_trace :: "event list" where
  "reset_trace = failed_socket_trace @ [Reset]"

text \<open>After the socket failed, the event source held in \<open>connRef\<close> delivers \<open>complete\<close>.\<close>

definition done_trace :: "event list" where
  "done_trace = failed_socket_trace @ [EsMessage 2 (Some complete_event)]"

text \<open>After a reset the user types the idea again and starts a second run.\<close>

definition restart :: "event list" where
  "restart = [SetIdea ''AI code review tool'', StartResearch]"

text \<open>
  An idea of white space only: an em space (U+2003), a space, an ideographic space
  (U+3000) and a no-break space (U+00A0). And a word that ends in the byte \<open>A0\<close>.
\<close>

definition blank_idea :: string where
  "blank_idea = [CHR 0xE2, CHR 0x80, CHR 0x83, CHR 0x20, CHR 0xE3, CHR 0x80, CHR 0x80,
     CHR 0xC2, CHR 0xA0]"

definition voila :: string where
  "voila = ''voil'' @ [CHR 0xC3, CHR 0xA0]"

text \<open>
  The result is absent unless \<open>done\<close> is set: only \<open>complete\<close> and an opened history
  item store one, and both set \<open>done\<close>.
\<close>

definition result_absent :: "page \<Rightarrow> bool" where
  "result_absent s = (done_st s \<or> result s = None)"

section \<open>Closing transports\<close>

lemma close_at_eq:
  "close_at i cc s = s\<lparr> conns := (conns s)[i := close_conn cc (conns s ! i)] \<rparr>"
  by (simp add: close_at_def list_update_beyond)

lemma close_conn_kind [simp]: "kind (close_conn cc c) = kind c"
  by (simp add: close_conn_def)

lemma close_conn_req [simp]: "req (close_conn cc c) = req c"
  by (simp add: close_conn_def)

lemma close_conn_closed [simp]: "closed (close_conn cc c) \<noteq> None"
  by (simp add: close_conn_def)

lemma close_conn_open: "closed c = None \<Longrightarrow> closed (close_conn cc c) = Some cc"
  by (simp add: close_conn_def)

lemma close_conn_idem: "closed c \<noteq> None \<Longrightarrow> close_conn cc c = c"
  by (simp add: close_conn_def)

lemma close_connRef_eq: "close_connRef wc s = s\<lparr> conns := closing wc s \<rparr>"
  by (simp add: closing_def close_connRef_def close_at_eq split: option.splits transport.splits)

lemma length_closing [simp]: "length (closing wc s) = length (conns s)"
  by (simp add: closing_def close_connRef_def close_at_eq split: option.splits transport.splits)

lemma closing_nth:
  "j < length (conns s) \<Longrightarrow>
   closing wc s ! j =
     (if connRef s = Some j
      then close_conn (case kind (conns s ! j) of WebSocket \<Rightarrow> wc | EventSource \<Rightarrow> CloseNoCode)
             (conns s ! j)
      else conns s ! j)"
  by (auto simp add: closing_def close_connRef_def close_at_eq nth_list_update
      split: option.splits transport.splits)

lemma fallbacks_update:
  "kind c = kind (cs ! i) \<Longrightarrow> req c = req (cs ! i) \<Longrightarrow>
   map req (filter (\<lambda>c. kind c = k) (cs[i := c])) = map req (filter (\<lambda>c. kind c = k) cs)"
proof (induction cs arbitrary: i)
  case Nil
  then show ?case by simp
next
  case (Cons a cs)
  then show ?case by (cases i) auto
qed


lemma reset_eq:
  "reset s = s\<lparr> conns := closing (CloseCode 1000 ''reset'') s, running := False,
     done_st := False, lines := [], result := None, error := [], idea := [],
     description := [], wsStatus := StIdle \<rparr>"
  by (simp add: reset_def close_connRef_eq)


section \<open>Guards of start\<close>

lemma startResearch_no_user:
  "user s = None \<Longrightarrow> startResearch s = s\<lparr> showAuthModal := True \<rparr>"
  by (simp add: startResearch_def)

text \<open>
  C10. \<open>startResearch\<close> without an authenticated user only asks for the login modal: the
  status, the flags, the transports, the log, the result and the error message are as
  before, so no run begins anonymously.
\<close>

theorem start_without_user:
  "user s = None \<Longrightarrow>
     startResearch s = s\<lparr> showAuthModal := True \<rparr> \<and>
     status_of (startResearch s) = status_of s \<and>
     running (startResearch s) = running s \<and>
     conns (startResearch s) = conns s \<and> connRef (startResearch s) = connRef s \<and>
     lines (startResearch s) = lines s \<and> result (startResearch s) = result s \<and>
     error (startResearch s) = error s"
  by (simp add: startResearch_no_user status_of_def)

theorem start_without_user_witness:
  "user (init True) = None \<and>
   startResearch (init True) = (init True)\<lparr> showAuthModal := True \<rparr> \<and>
   status_of (startResearch (init True)) = Idle \<and>
   conns (startResearch (init True)) = []"
  using start_without_user [of "init True"] by (simp add: init_def status_of_def)

lemma startResearch_guard:
  assumes "user s \<noteq> None" and "running s \<or> trim (idea s) = []"
  shows "startResearch s = s"
proof -
  from assms(2) have "trim (idea s) = [] \<or> running s" by blast
  with assms(1) show ?thesis unfolding startResearch_def by (simp only: if_True if_False)
qed

text \<open>
  C7. \<open>startResearch\<close> on a running session, or with an idea that is empty after trimming,
  leaves the status, the transports, the log, the result and the error message as they
  are; with a user present it changes nothing at all.
\<close>

theorem start_guard_noop:
  "running s \<or> trim (idea s) = [] \<Longrightarrow>
     status_of (startResearch s) = status_of s \<and>
     conns (startResearch s) = conns s \<and> connRef (startResearch s) = connRef s \<and>
     lines (startResearch s) = lines s \<and> result (startResearch s) = result s \<and>
     error (startResearch s) = error s \<and>
     (user s \<noteq> None \<longrightarrow> startResearch s = s)"
proof (cases "user s = None")
  case True
  then show ?thesis by (simp add: startResearch_no_user status_of_def)
next
  case False
  assume "running s \<or> trim (idea s) = []"
  with False show ?thesis by (simp add: startResearch_guard)
qed

theorem start_guard_noop_witness:
  "(running (run (init True) [Login ''u@x'' ''tok123'', SetIdea blank_idea]) \<or>
    trim (idea (run (init True) [Login ''u@x'' ''tok123'', SetIdea blank_idea])) = []) \<and>
   status_of (startResearch (run (init True) [Login ''u@x'' ''tok123'', SetIdea blank_idea])) =
     Idle \<and>
   startResearch (run (init True) [Login ''u@x'' ''tok123'', SetIdea blank_idea]) =
     run (init True) [Login ''u@x'' ''tok123'', SetIdea blank_idea]"
proof -
  have h: "running (run (init True) [Login ''u@x'' ''tok123'', SetIdea blank_idea]) \<or>
    trim (idea (run (init True) [Login ''u@x'' ''tok123'', SetIdea blank_idea])) = []"
    by code_simp
  have u: "user (run (init True) [Login ''u@x'' ''tok123'', SetIdea blank_idea]) \<noteq> None"
    by (simp add: run_def init_def)
  have i: "status_of (run (init True) [Login ''u@x'' ''tok123'', SetIdea blank_idea]) = Idle"
    by (simp add: run_def init_def status_of_def)
  from start_guard_noop [OF h] u i h show ?thesis by simp
qed

text \<open>
  White space of any width counts as empty, and a word is kept whole: the last byte of
  \<open>voila\<close> is not the no-break space.
\<close>

lemma trim_blank_idea: "trim blank_idea = []"
  by code_simp

lemma trim_voila: "trim voila = voila"
  by code_simp

lemma trim_spaces: "trim '' AI code review tool  '' = ''AI code review tool''"
  by code_simp

section \<open>Error events\<close>

lemma handleEvent_error:
  "ptype d = ''error'' \<Longrightarrow>
   handleEvent s d =
     s\<lparr> error := (case pmsg d of None \<Rightarrow> ''Agent error''
                   | Some m \<Rightarrow> if m = [] then ''Agent error'' else m),
        running := False \<rparr>"
  by (simp add: handleEvent_def)

lemma result_absent_conns [simp]: "result_absent (s\<lparr> conns := cs \<rparr>) = result_absent s"
  by (simp add: result_absent_def)

lemma result_absent_handleEvent: "result_absent s \<Longrightarrow> result_absent (handleEvent s d)"
  by (auto simp add: result_absent_def handleEvent_def addLine_def close_connRef_eq)

lemma result_absent_fallback: "result_absent (fallbackToSSE s r) = result_absent s"
  by (simp add: result_absent_def fallbackToSSE_def)

lemma result_absent_startResearch: "result_absent s \<Longrightarrow> result_absent (startResearch s)"
  by (auto simp add: result_absent_def startResearch_def fallbackToSSE_def Let_def)

lemma result_absent_ws_onmessage: "result_absent s \<Longrightarrow> result_absent (ws_onmessage i raw s)"
  by (cases raw) (simp_all add: ws_onmessage_def result_absent_handleEvent)

lemma result_absent_es_onmessage: "result_absent s \<Longrightarrow> result_absent (es_onmessage i raw s)"
  by (cases raw) (simp_all add: es_onmessage_def result_absent_handleEvent)

lemma result_absent_step: "result_absent s \<Longrightarrow> result_absent (step s ev)"
proof (cases ev)
  case (HistoryItemOpened a b c)
  assume "result_absent s" with HistoryItemOpened show ?thesis
    by (simp add: result_absent_def)
next
  case StartResearch
  assume "result_absent s" with StartResearch show ?thesis
    by (simp add: result_absent_startResearch)
next
  case Reset
  then show ?thesis by (simp add: result_absent_def reset_eq)
next
  case (WsOpen j)
  assume "result_absent s" with WsOpen show ?thesis
    by (simp add: ws_onopen_def result_absent_def)
next
  case (WsMessage j raw)
  assume "result_absent s" with WsMessage show ?thesis
    by (simp add: result_absent_ws_onmessage)
next
  case (WsError j)
  assume "result_absent s" with WsError show ?thesis
    by (simp add: ws_onerror_def result_absent_fallback close_at_eq)
next
  case (WsClose j code)
  assume "result_absent s" with WsClose show ?thesis
    by (simp add: ws_onclose_def result_absent_fallback)
next
  case (EsMessage j raw)
  assume "result_absent s" with EsMessage show ?thesis
    by (simp add: result_absent_es_onmessage)
next
  case (EsError j)
  assume "result_absent s" with EsError show ?thesis
    by (simp add: es_onerror_def close_at_eq addLine_def result_absent_def)
next
  case (SetIdea x)
  assume "result_absent s" with SetIdea show ?thesis by (simp add: result_absent_def)
next
  case (SetDescription x)
  assume "result_absent s" with SetDescription show ?thesis by (simp add: result_absent_def)
next
  case (Login u x)
  assume "result_absent s" with Login show ?thesis by (simp add: result_absent_def)
next
  case Logout
  assume "result_absent s" with Logout show ?thesis by (simp add: result_absent_def)
qed

lemma result_absent_run: "result_absent s \<Longrightarrow> result_absent (run s evs)"
  unfolding run_def by (induction evs arbitrary: s) (simp_all add: result_absent_step)

lemma result_absent_init: "result_absent (init ok)"
  by (simp add: result_absent_def init_def)

lemma running_no_result:
  "status_of (run (init ok) evs) = Running \<Longrightarrow> result (run (init ok) evs) = None"
proof -
  assume r: "status_of (run (init ok) evs) = Running"
  then have "\<not> done_st (run (init ok) evs)"
    by (simp add: status_of_def split: if_splits)
  moreover have "result_absent (run (init ok) evs)"
    using result_absent_init by (rule result_absent_run)
  ultimately show ?thesis by (simp add: result_absent_def)
qed

text \<open>
  C6 (amended). An \<open>error\<close> event stores its message, or \<open>Agent error\<close> when the message is
  missing or empty, and clears \<open>running\<close>: a running session becomes \<open>Error\<close>. Nothing else
  changes: the log and its counter, the result, and the transports (none is closed). In
  a running session of the page the result is absent before the event and stays absent.
\<close>

theorem error_event_frame:
  "ptype d = ''error'' \<Longrightarrow>
     handleEvent s d =
       s\<lparr> error := (case pmsg d of None \<Rightarrow> ''Agent error''
                     | Some m \<Rightarrow> if m = [] then ''Agent error'' else m),
          running := False \<rparr> \<and>
     (pmsg d = Some m \<and> m \<noteq> [] \<longrightarrow> error (handleEvent s d) = m) \<and>
     (pmsg d = None \<or> pmsg d = Some [] \<longrightarrow> error (handleEvent s d) = ''Agent error'') \<and>
     (status_of s = Running \<longrightarrow> status_of (handleEvent s d) = Error) \<and>
     lines (handleEvent s d) = lines s \<and> idRef (handleEvent s d) = idRef s \<and>
     result (handleEvent s d) = result s \<and>
     conns (handleEvent s d) = conns s \<and> connRef (handleEvent s d) = connRef s \<and>
     (has_kind WebSocket i s \<and> is_open i s \<longrightarrow>
        step s (WsMessage i (Some d)) = handleEvent s d) \<and>
     (has_kind EventSource i s \<and> is_open i s \<longrightarrow>
        step s (EsMessage i (Some d)) = handleEvent s d) \<and>
     (status_of (run (init ok) evs) = Running \<longrightarrow>
        result (run (init ok) evs) = None \<and>
        result (handleEvent (run (init ok) evs) d) = None)"
proof -
  assume e: "ptype d = ''error''"
  have st: "status_of s = Running \<longrightarrow> status_of (handleEvent s d) = Error"
    by (simp add: handleEvent_error [OF e] status_of_def split: option.splits if_splits)
  have ws: "ws_onmessage i (Some d) s = handleEvent s d"
    using e by (simp add: ws_onmessage_def)
  have es: "es_onmessage i (Some d) s = handleEvent s d"
    by (simp add: es_onmessage_def)
  have frame: "handleEvent s d =
       s\<lparr> error := (case pmsg d of None \<Rightarrow> ''Agent error''
                     | Some m \<Rightarrow> if m = [] then ''Agent error'' else m),
          running := False \<rparr> \<and>
     (pmsg d = Some m \<and> m \<noteq> [] \<longrightarrow> error (handleEvent s d) = m) \<and>
     (pmsg d = None \<or> pmsg d = Some [] \<longrightarrow> error (handleEvent s d) = ''Agent error'') \<and>
     (status_of s = Running \<longrightarrow> status_of (handleEvent s d) = Error) \<and>
     lines (handleEvent s d) = lines s \<and> idRef (handleEvent s d) = idRef s \<and>
     result (handleEvent s d) = result s \<and>
     conns (handleEvent s d) = conns s \<and> connRef (handleEvent s d) = connRef s \<and>
     (has_kind WebSocket i s \<and> is_open i s \<longrightarrow>
        step s (WsMessage i (Some d)) = handleEvent s d) \<and>
     (has_kind EventSource i s \<and> is_open i s \<longrightarrow>
        step s (EsMessage i (Some d)) = handleEvent s d)"
    using st by (auto simp add: handleEvent_error [OF e] ws es)
  have absent: "status_of (run (init ok) evs) = Running \<longrightarrow>
        result (run (init ok) evs) = None \<and>
        result (handleEvent (run (init ok) evs) d) = None"
  proof
    assume "status_of (run (init ok) evs) = Running"
    then have "result (run (init ok) evs) = None" by (rule running_no_result)
    then show "result (run (init ok) evs) = None \<and>
        result (handleEvent (run (init ok) evs) d) = None"
      by (simp add: handleEvent_error [OF e])
  qed
  from frame absent show ?thesis by blast
qed

theorem error_event_frame_witness:
  "ptype rate_limited = ''error'' \<and>
   status_of (run (init True) error_trace) = Running \<and>
   has_kind WebSocket 0 (run (init True) error_trace) \<and>
   is_open 0 (run (init True) error_trace) \<and>
   status_of (step (run (init True) error_trace) (WsMessage 0 (Some rate_limited))) = Error \<and>
   error (step (run (init True) error_trace) (WsMessage 0 (Some rate_limited))) = ''rate limited'' \<and>
   lines (step (run (init True) error_trace) (WsMessage 0 (Some rate_limited))) =
     [\<lparr> lid = 1, ltype = ''step'', lts = None, lmsg = Some ''Plan Queries'' \<rparr>] \<and>
   result (run (init True) error_trace) = None \<and>
   result (step (run (init True) error_trace) (WsMessage 0 (Some rate_limited))) = None"
proof -
  have a: "ptype rate_limited = ''error''" by (simp add: rate_limited_def)
  have m: "pmsg rate_limited = Some ''rate limited''" by (simp add: rate_limited_def)
  have r: "status_of (run (init True) error_trace) = Running" by code_simp
  have k: "has_kind WebSocket 0 (run (init True) error_trace)" by code_simp
  have ope: "is_open 0 (run (init True) error_trace)" by code_simp
  have l: "lines (run (init True) error_trace) =
     [\<lparr> lid = 1, ltype = ''step'', lts = None, lmsg = Some ''Plan Queries'' \<rparr>]" by code_simp
  note T = error_event_frame [OF a, where m = "''rate limited''"
      and s = "run (init True) error_trace" and i = 0 and ok = True and evs = error_trace]
  have 1: "step (run (init True) error_trace) (WsMessage 0 (Some rate_limited)) =
      handleEvent (run (init True) error_trace) rate_limited"
    using T k ope by blast
  have 2: "status_of (handleEvent (run (init True) error_trace) rate_limited) = Error"
    using T r by blast
  have 3: "error (handleEvent (run (init True) error_trace) rate_limited) = ''rate limited''"
    using T m by blast
  have 4: "lines (handleEvent (run (init True) error_trace) rate_limited) =
      lines (run (init True) error_trace)"
    using T by blast
  have 5: "result (run (init True) error_trace) = None"
    using T r by blast
  have 6: "result (handleEvent (run (init True) error_trace) rate_limited) = None"
    using T r by blast
  show ?thesis
    unfolding 1 2 3 4 6 l using a r k ope 5 by blast
qed

text \<open>
  An \<open>error\<close> event with the empty message does not leave the empty message behind.
\<close>

theorem error_message_default_counterexample:
  "status_of (run (init True) error_trace) = Running \<and>
   ptype empty_error = ''error'' \<and> pmsg empty_error = Some [] \<and>
   error (step (run (init True) error_trace) (WsMessage 0 (Some empty_error))) \<noteq> []"
  by code_simp

section \<open>Reset and the close code\<close>





section \<open>The fallback\<close>

text \<open>
  C1. When the socket fails to connect, the browser fires \<open>error\<close> and then \<open>close\<close> with
  code 1006 on it. Both handlers call \<open>fallbackToSSE\<close>: the same request is issued over
  two event sources, both open, and only the second is held in \<open>connRef\<close>.
\<close>

theorem fallback_issued_twice:
  "status_of (run (init True) failed_socket_trace) = Running \<and>
   fallbacks (run (init True) failed_socket_trace) = [the_request, the_request] \<and>
   is_open 1 (run (init True) failed_socket_trace) \<and>
   is_open 2 (run (init True) failed_socket_trace) \<and>
   connRef (run (init True) failed_socket_trace) = Some 2"
  by code_simp

section \<open>The stage of the pipeline\<close>











text \<open>The first marker wins: a step that names two stages is at the earlier one.\<close>

lemma first_marker_wins: "currentStep False True [plan_and_trends] = 0"
  by code_simp

section \<open>The log under every handler\<close>

lemma log_appendedD:
  assumes "log_appended s t"
  obtains x where "lines t = lines s @ [x]" and "lid x = Suc (idRef s)"
    and "ltype x \<noteq> ''ping''" and "ltype x \<noteq> ''complete''" and "idRef t = Suc (idRef s)"
proof -
  have ne: "lines t \<noteq> []" and b: "butlast (lines t) = lines s"
    using assms by (simp_all add: log_appended_def)
  have "lines t = butlast (lines t) @ [last (lines t)]" using ne by simp
  then have "lines t = lines s @ [last (lines t)]" unfolding b .
  moreover have "lid (last (lines t)) = Suc (idRef s)" "ltype (last (lines t)) \<noteq> ''ping''"
    "ltype (last (lines t)) \<noteq> ''complete''" "idRef t = Suc (idRef s)"
    using assms by (simp_all add: log_appended_def)
  ultimately show ?thesis using that by blast
qed

lemma handleEvent_log: "log_same s (handleEvent s d) \<or> log_appended s (handleEvent s d)"
  by (simp add: handleEvent_def log_same_def log_appended_def addLine_def close_connRef_eq)

lemma ws_onmessage_log:
  "log_same s (ws_onmessage i raw s) \<or> log_appended s (ws_onmessage i raw s)"
proof (cases raw)
  case None
  then show ?thesis by (simp add: ws_onmessage_def log_same_def)
next
  case (Some d)
  show ?thesis
  proof (cases "ptype d = ''complete''")
    case True
    with Some show ?thesis
      by (simp add: ws_onmessage_def handleEvent_def log_same_def close_connRef_eq)
  next
    case False
    with Some show ?thesis using handleEvent_log [of s d] by (simp add: ws_onmessage_def)
  qed
qed

lemma es_onmessage_log:
  "log_same s (es_onmessage i raw s) \<or> log_appended s (es_onmessage i raw s)"
  using handleEvent_log by (cases raw) (simp_all add: es_onmessage_def log_same_def)

lemma es_onerror_log: "log_appended s (es_onerror i s)"
  by (simp add: es_onerror_def close_at_eq addLine_def log_appended_def)

lemma fallbackToSSE_log: "log_same s (fallbackToSSE t r) = log_same s t"
  by (simp add: fallbackToSSE_def log_same_def)

lemma ws_onerror_log: "log_same s (ws_onerror i s)"
  by (simp add: ws_onerror_def fallbackToSSE_def close_at_eq log_same_def)

lemma ws_onclose_log: "log_same s (ws_onclose i code s)"
  by (simp add: ws_onclose_def fallbackToSSE_def log_same_def)

lemma ws_onopen_log: "log_same s (ws_onopen i s)"
  by (simp add: ws_onopen_def log_same_def)

lemma reset_log: "log_cleared s (reset s)"
  by (simp add: reset_eq log_cleared_def)

lemma startResearch_log: "log_same s (startResearch s) \<or> log_cleared s (startResearch s)"
  by (simp add: startResearch_def fallbackToSSE_def log_same_def log_cleared_def Let_def)

lemma step_log_keep:
  "ev \<noteq> StartResearch \<Longrightarrow> ev \<noteq> Reset \<Longrightarrow>
   log_same s (step s ev) \<or> log_appended s (step s ev)"
proof (cases ev)
  case (WsMessage i raw)
  then show ?thesis using ws_onmessage_log [of s i raw] by (simp add: log_same_def)
next
  case (EsMessage i raw)
  then show ?thesis using es_onmessage_log [of s i raw] by (simp add: log_same_def)
next
  case (EsError i)
  then show ?thesis using es_onerror_log [of s i] by (simp add: log_same_def)
next
  case (WsError i)
  then show ?thesis using ws_onerror_log [of s i] by (simp add: log_same_def)
next
  case (WsClose i code)
  then show ?thesis using ws_onclose_log [of s i code] by (simp add: log_same_def)
next
  case (WsOpen i)
  then show ?thesis using ws_onopen_log [of s i] by (simp add: log_same_def)
qed (simp_all add: log_same_def)

lemma step_log:
  "log_same s (step s ev) \<or> log_cleared s (step s ev) \<or> log_appended s (step s ev)"
proof (cases "ev = StartResearch \<or> ev = Reset")
  case True
  then show ?thesis using startResearch_log [of s] reset_log [of s] by auto
next
  case False
  then show ?thesis using step_log_keep [of ev s] by blast
qed


lemma no_control_step: "no_control s \<Longrightarrow> no_control (step s ev)"
proof -
  assume n: "no_control s"
  consider "log_same s (step s ev)" | "log_cleared s (step s ev)" | "log_appended s (step s ev)"
    using step_log by blast
  then show ?thesis
  proof cases
    case 1
    with n show ?thesis by (simp add: no_control_def log_same_def)
  next
    case 2
    then show ?thesis by (simp add: no_control_def log_cleared_def)
  next
    case 3
    then obtain x where "lines (step s ev) = lines s @ [x]"
      and "ltype x \<noteq> ''ping''" and "ltype x \<noteq> ''complete''"
      by (rule log_appendedD)
    with n show ?thesis by (simp add: no_control_def)
  qed
qed

lemma no_control_run: "no_control s \<Longrightarrow> no_control (run s evs)"
  unfolding run_def by (induction evs arbitrary: s) (simp_all add: no_control_step)

lemma no_control_init: "no_control (init ok)"
  by (simp add: no_control_def init_def)





section \<open>Control events and line ids\<close>

text \<open>
  C9. Whatever happens to the page from its initial state, no line of type \<open>ping\<close> or
  \<open>complete\<close> is in the log that \<open>currentStep\<close> reads, nor among the lines rendered.
\<close>

theorem no_control_lines:
  "l \<in> set (lines (run (init ok) evs)) \<or> l \<in> set (rendered (run (init ok) evs)) \<Longrightarrow>
   ltype l \<noteq> ''ping'' \<and> ltype l \<noteq> ''complete''"
proof -
  assume "l \<in> set (lines (run (init ok) evs)) \<or> l \<in> set (rendered (run (init ok) evs))"
  then have "l \<in> set (lines (run (init ok) evs))" by (auto simp: rendered_def)
  moreover have "no_control (run (init ok) evs)"
    using no_control_init by (rule no_control_run)
  ultimately show ?thesis by (simp add: no_control_def)
qed

theorem no_control_lines_witness:
  "(plan_line 1 \<in> set (lines (run (init True) (error_trace @ [WsMessage 0 (Some ping_event)]))) \<or>
    plan_line 1 \<in> set (rendered (run (init True) (error_trace @ [WsMessage 0 (Some ping_event)])))) \<and>
   lines (run (init True) (error_trace @ [WsMessage 0 (Some ping_event)])) = [plan_line 1] \<and>
   ltype (plan_line 1) \<noteq> ''ping'' \<and> ltype (plan_line 1) \<noteq> ''complete''"
proof -
  have l: "lines (run (init True) (error_trace @ [WsMessage 0 (Some ping_event)])) = [plan_line 1]"
    by code_simp
  then have h: "plan_line 1 \<in> set (lines (run (init True) (error_trace @ [WsMessage 0 (Some ping_event)]))) \<or>
    plan_line 1 \<in> set (rendered (run (init True) (error_trace @ [WsMessage 0 (Some ping_event)])))"
    by simp
  from no_control_lines [OF h] h l show ?thesis by blast
qed




section \<open>Closed transports stay closed\<close>

lemma closing_eq:
  "closing wc s =
     (case connRef s of
        None \<Rightarrow> conns s
      | Some i \<Rightarrow>
          (conns s)[i := close_conn
             (case kind (conns s ! i) of WebSocket \<Rightarrow> wc | EventSource \<Rightarrow> CloseNoCode)
             (conns s ! i)])"
  by (simp add: closing_def close_connRef_def close_at_eq list_update_beyond
      split: option.splits transport.splits)

lemma close_conn_wsCompleted [simp]: "wsCompleted (close_conn cc c) = wsCompleted c"
  by (simp add: close_conn_def)

lemma closed_update:
  "i < length cs \<Longrightarrow> closed (cs ! i) \<noteq> None \<Longrightarrow> (j = i \<longrightarrow> closed c \<noteq> None) \<Longrightarrow>
   closed (cs[j := c] ! i) \<noteq> None"
  by (cases "j = i") simp_all

lemma completed_update:
  "i < length cs \<Longrightarrow> wsCompleted (cs ! i) \<Longrightarrow> (j = i \<longrightarrow> wsCompleted c) \<Longrightarrow>
   wsCompleted (cs[j := c] ! i)"
  by (cases "j = i") simp_all

lemma closing_cases:
  obtains "closing wc s = conns s"
  | j cc where "closing wc s = (conns s)[j := close_conn cc (conns s ! j)]"
  by (cases "connRef s") (simp_all add: closing_eq)

lemma is_closed_closing: "is_closed i s \<Longrightarrow> is_closed i (s\<lparr> conns := closing wc s \<rparr>)"
proof -
  assume c: "is_closed i s"
  show ?thesis
  proof (cases rule: closing_cases [of wc s])
    case 1
    with c show ?thesis by (simp add: is_closed_def)
  next
    case (2 j cc)
    have "closed ((conns s)[j := close_conn cc (conns s ! j)] ! i) \<noteq> None"
      using c by (intro closed_update) (simp_all add: is_closed_def)
    with c 2 show ?thesis by (simp add: is_closed_def)
  qed
qed

lemma is_completed_closing: "is_completed i s \<Longrightarrow> is_completed i (s\<lparr> conns := closing wc s \<rparr>)"
proof -
  assume c: "is_completed i s"
  show ?thesis
  proof (cases rule: closing_cases [of wc s])
    case 1
    with c show ?thesis by (simp add: is_completed_def)
  next
    case (2 j cc)
    have "wsCompleted ((conns s)[j := close_conn cc (conns s ! j)] ! i)"
      using c by (intro completed_update) (simp_all add: is_completed_def)
    with c 2 show ?thesis by (simp add: is_completed_def)
  qed
qed

lemma is_closed_cong: "conns t = conns s \<Longrightarrow> is_closed i t = is_closed i s"
  by (simp add: is_closed_def)

lemma is_completed_cong: "conns t = conns s \<Longrightarrow> is_completed i t = is_completed i s"
  by (simp add: is_completed_def)

lemma is_closed_fallback: "is_closed i s \<Longrightarrow> is_closed i (fallbackToSSE s r)"
  by (simp add: is_closed_def fallbackToSSE_def nth_append)

lemma is_completed_fallback: "is_completed i s \<Longrightarrow> is_completed i (fallbackToSSE s r)"
  by (simp add: is_completed_def fallbackToSSE_def nth_append)

lemma is_closed_close_at: "is_closed i s \<Longrightarrow> is_closed i (close_at j cc s)"
  by (simp add: is_closed_def close_at_eq closed_update)

lemma is_completed_close_at: "is_completed i s \<Longrightarrow> is_completed i (close_at j cc s)"
  by (simp add: is_completed_def close_at_eq completed_update)

lemma closing_complete:
  "closing wc (s\<lparr> result := a, done_st := b, running := c, termCollapsed := e \<rparr>) = closing wc s"
  by (simp add: closing_eq split: option.splits)

lemma handleEvent_conns:
  "conns (handleEvent s d) = (if ptype d = ''complete'' then closing CloseNoCode s else conns s)"
  by (simp add: handleEvent_def addLine_def close_connRef_eq closing_complete)

lemma is_closed_handleEvent: "is_closed i s \<Longrightarrow> is_closed i (handleEvent s d)"
  using is_closed_closing [of i s CloseNoCode] by (simp add: is_closed_def handleEvent_conns)

lemma is_completed_handleEvent: "is_completed i s \<Longrightarrow> is_completed i (handleEvent s d)"
  using is_completed_closing [of i s CloseNoCode]
  by (simp add: is_completed_def handleEvent_conns)

lemma is_closed_startResearch: "is_closed i s \<Longrightarrow> is_closed i (startResearch s)"
  by (simp add: is_closed_def startResearch_def fallbackToSSE_def Let_def nth_append)

lemma is_completed_startResearch: "is_completed i s \<Longrightarrow> is_completed i (startResearch s)"
  by (simp add: is_completed_def startResearch_def fallbackToSSE_def Let_def nth_append)

lemma is_closed_reset: "is_closed i s \<Longrightarrow> is_closed i (reset s)"
  using is_closed_closing [of i s "CloseCode 1000 ''reset''"]
  by (simp add: reset_eq is_closed_def)

lemma is_completed_reset: "is_completed i s \<Longrightarrow> is_completed i (reset s)"
  using is_completed_closing [of i s "CloseCode 1000 ''reset''"]
  by (simp add: reset_eq is_completed_def)

lemma is_closed_ws_onopen: "is_closed i s \<Longrightarrow> is_closed i (ws_onopen j s)"
  by (simp add: is_closed_def ws_onopen_def closed_update)

lemma is_completed_ws_onopen: "is_completed i s \<Longrightarrow> is_completed i (ws_onopen j s)"
  by (simp add: is_completed_def ws_onopen_def completed_update)

lemma is_closed_mark:
  "is_closed i s \<Longrightarrow> is_closed i (s\<lparr> conns := (conns s)[j := (conns s ! j)\<lparr> wsCompleted := True \<rparr>] \<rparr>)"
  by (simp add: is_closed_def closed_update)

lemma is_completed_mark:
  "is_completed i s \<Longrightarrow>
   is_completed i (s\<lparr> conns := (conns s)[j := (conns s ! j)\<lparr> wsCompleted := True \<rparr>] \<rparr>)"
  by (simp add: is_completed_def completed_update)

lemma is_closed_ws_onmessage: "is_closed i s \<Longrightarrow> is_closed i (ws_onmessage j raw s)"
  by (cases raw) (simp_all add: ws_onmessage_def is_closed_handleEvent is_closed_mark)

lemma is_completed_ws_onmessage: "is_completed i s \<Longrightarrow> is_completed i (ws_onmessage j raw s)"
  by (cases raw) (simp_all add: ws_onmessage_def is_completed_handleEvent is_completed_mark)

lemma is_closed_es_onmessage: "is_closed i s \<Longrightarrow> is_closed i (es_onmessage j raw s)"
  by (cases raw) (simp_all add: es_onmessage_def is_closed_handleEvent)

lemma is_completed_es_onmessage: "is_completed i s \<Longrightarrow> is_completed i (es_onmessage j raw s)"
  by (cases raw) (simp_all add: es_onmessage_def is_completed_handleEvent)

lemma is_closed_ws_onerror: "is_closed i s \<Longrightarrow> is_closed i (ws_onerror j s)"
  by (simp add: ws_onerror_def is_closed_fallback is_closed_close_at)

lemma is_completed_ws_onerror: "is_completed i s \<Longrightarrow> is_completed i (ws_onerror j s)"
  by (simp add: ws_onerror_def is_completed_fallback is_completed_close_at)

lemma is_closed_ws_onclose: "is_closed i s \<Longrightarrow> is_closed i (ws_onclose j code s)"
  by (simp add: ws_onclose_def is_closed_fallback)

lemma is_completed_ws_onclose: "is_completed i s \<Longrightarrow> is_completed i (ws_onclose j code s)"
  by (simp add: ws_onclose_def is_completed_fallback)

lemma is_closed_es_onerror: "is_closed i s \<Longrightarrow> is_closed i (es_onerror j s)"
  by (simp add: is_closed_def es_onerror_def close_at_eq addLine_def closed_update)

lemma is_completed_es_onerror: "is_completed i s \<Longrightarrow> is_completed i (es_onerror j s)"
  by (simp add: is_completed_def es_onerror_def close_at_eq addLine_def completed_update)

lemma is_closed_step: "is_closed i s \<Longrightarrow> is_closed i (step s ev)"
proof (cases ev)
  case (SetIdea t)
  assume "is_closed i s" with SetIdea show ?thesis by (simp add: is_closed_def)
next
  case (SetDescription t)
  assume "is_closed i s" with SetDescription show ?thesis by (simp add: is_closed_def)
next
  case (Login u t)
  assume "is_closed i s" with Login show ?thesis by (simp add: is_closed_def)
next
  case Logout
  assume "is_closed i s" with Logout show ?thesis by (simp add: is_closed_def)
next
  case (HistoryItemOpened a b c)
  assume "is_closed i s" with HistoryItemOpened show ?thesis by (simp add: is_closed_def)
next
  case StartResearch
  assume "is_closed i s" with StartResearch show ?thesis by (simp add: is_closed_startResearch)
next
  case Reset
  assume "is_closed i s" with Reset show ?thesis by (simp add: is_closed_reset)
next
  case (WsOpen j)
  assume "is_closed i s" with WsOpen show ?thesis by (simp add: is_closed_ws_onopen)
next
  case (WsMessage j raw)
  assume "is_closed i s" with WsMessage show ?thesis by (simp add: is_closed_ws_onmessage)
next
  case (WsError j)
  assume "is_closed i s" with WsError show ?thesis by (simp add: is_closed_ws_onerror)
next
  case (WsClose j code)
  assume "is_closed i s" with WsClose show ?thesis by (simp add: is_closed_ws_onclose)
next
  case (EsMessage j raw)
  assume "is_closed i s" with EsMessage show ?thesis by (simp add: is_closed_es_onmessage)
next
  case (EsError j)
  assume "is_closed i s" with EsError show ?thesis by (simp add: is_closed_es_onerror)
qed

lemma is_completed_step: "is_completed i s \<Longrightarrow> is_completed i (step s ev)"
proof (cases ev)
  case (SetIdea t)
  assume "is_completed i s" with SetIdea show ?thesis by (simp add: is_completed_def)
next
  case (SetDescription t)
  assume "is_completed i s" with SetDescription show ?thesis by (simp add: is_completed_def)
next
  case (Login u t)
  assume "is_completed i s" with Login show ?thesis by (simp add: is_completed_def)
next
  case Logout
  assume "is_completed i s" with Logout show ?thesis by (simp add: is_completed_def)
next
  case (HistoryItemOpened a b c)
  assume "is_completed i s" with HistoryItemOpened show ?thesis by (simp add: is_completed_def)
next
  case StartResearch
  assume "is_completed i s" with StartResearch show ?thesis
    by (simp add: is_completed_startResearch)
next
  case Reset
  assume "is_completed i s" with Reset show ?thesis by (simp add: is_completed_reset)
next
  case (WsOpen j)
  assume "is_completed i s" with WsOpen show ?thesis by (simp add: is_completed_ws_onopen)
next
  case (WsMessage j raw)
  assume "is_completed i s" with WsMessage show ?thesis by (simp add: is_completed_ws_onmessage)
next
  case (WsError j)
  assume "is_completed i s" with WsError show ?thesis by (simp add: is_completed_ws_onerror)
next
  case (WsClose j code)
  assume "is_completed i s" with WsClose show ?thesis by (simp add: is_completed_ws_onclose)
next
  case (EsMessage j raw)
  assume "is_completed i s" with EsMessage show ?thesis by (simp add: is_completed_es_onmessage)
next
  case (EsError j)
  assume "is_completed i s" with EsError show ?thesis by (simp add: is_completed_es_onerror)
qed

lemma is_closed_run: "is_closed i s \<Longrightarrow> is_closed i (run s evs)"
  unfolding run_def by (induction evs arbitrary: s) (simp_all add: is_closed_step)

lemma is_completed_run: "is_completed i s \<Longrightarrow> is_completed i (run s evs)"
  unfolding run_def by (induction evs arbitrary: s) (simp_all add: is_completed_step)

text \<open>The browser delivers nothing but \<open>error\<close> and \<open>close\<close> from a closed transport.\<close>

lemma closed_drops:
  assumes "is_closed i s"
  shows "step s (WsOpen i) = s" and "step s (WsMessage i raw) = s"
    and "step s (EsMessage i raw) = s" and "step s (EsError i) = s"
  using assms by (auto simp add: is_closed_def is_open_def)

lemma completed_close: "is_completed i s \<Longrightarrow> step s (WsClose i code) = s"
  by (simp add: is_completed_def ws_onclose_def)

section \<open>Reset and completion\<close>

lemma reset_closes: "connRef s = Some i \<Longrightarrow> i < length (conns s) \<Longrightarrow> is_closed i (reset s)"
  by (simp add: is_closed_def reset_eq closing_nth)

text \<open>
  C2 (amended). \<open>reset\<close> returns the status to \<open>Idle\<close> with an empty log, no result and no
  error message, and closes the transport held in \<open>connRef\<close>. That transport stays closed
  in every later state, of this and of any later session, so that the browser delivers
  no \<open>open\<close>, \<open>message\<close> or event-source \<open>error\<close> event from it: such an event changes
  nothing. The handlers carry no generation tag.
\<close>

theorem reset_effect:
  "status_of (reset s) = Idle \<and> running (reset s) = False \<and> done_st (reset s) = False \<and>
   lines (reset s) = [] \<and> result (reset s) = None \<and> error (reset s) = [] \<and>
   wsStatus (reset s) = StIdle \<and> length (conns (reset s)) = length (conns s) \<and>
   (connRef s = Some i \<and> i < length (conns s) \<longrightarrow>
      is_closed i (run (reset s) evs) \<and>
      step (run (reset s) evs) (WsOpen i) = run (reset s) evs \<and>
      step (run (reset s) evs) (WsMessage i raw) = run (reset s) evs \<and>
      step (run (reset s) evs) (EsMessage i raw) = run (reset s) evs \<and>
      step (run (reset s) evs) (EsError i) = run (reset s) evs)"
proof -
  have a: "status_of (reset s) = Idle \<and> running (reset s) = False \<and>
      done_st (reset s) = False \<and> lines (reset s) = [] \<and> result (reset s) = None \<and>
      error (reset s) = [] \<and> wsStatus (reset s) = StIdle \<and>
      length (conns (reset s)) = length (conns s)"
    by (simp add: reset_eq status_of_def)
  have b: "connRef s = Some i \<and> i < length (conns s) \<longrightarrow>
      is_closed i (run (reset s) evs) \<and>
      step (run (reset s) evs) (WsOpen i) = run (reset s) evs \<and>
      step (run (reset s) evs) (WsMessage i raw) = run (reset s) evs \<and>
      step (run (reset s) evs) (EsMessage i raw) = run (reset s) evs \<and>
      step (run (reset s) evs) (EsError i) = run (reset s) evs"
  proof
    assume "connRef s = Some i \<and> i < length (conns s)"
    then have "is_closed i (reset s)" by (simp add: reset_closes)
    then have c: "is_closed i (run (reset s) evs)" by (rule is_closed_run)
    with closed_drops [OF c] show "is_closed i (run (reset s) evs) \<and>
      step (run (reset s) evs) (WsOpen i) = run (reset s) evs \<and>
      step (run (reset s) evs) (WsMessage i raw) = run (reset s) evs \<and>
      step (run (reset s) evs) (EsMessage i raw) = run (reset s) evs \<and>
      step (run (reset s) evs) (EsError i) = run (reset s) evs"
      by blast
  qed
  from a b show ?thesis by blast
qed

theorem reset_effect_witness:
  "connRef (run (init True) error_trace) = Some 0 \<and>
   0 < length (conns (run (init True) error_trace)) \<and>
   status_of (run (init True) error_trace) = Running \<and>
   lines (run (init True) error_trace) \<noteq> [] \<and>
   status_of (reset (run (init True) error_trace)) = Idle \<and>
   lines (reset (run (init True) error_trace)) = [] \<and>
   status_of (run (reset (run (init True) error_trace)) restart) = Running \<and>
   step (run (reset (run (init True) error_trace)) restart) (WsMessage 0 (Some step_event)) =
     run (reset (run (init True) error_trace)) restart"
proof -
  have r: "connRef (run (init True) error_trace) = Some 0" by code_simp
  have k: "0 < length (conns (run (init True) error_trace))" by code_simp
  have u: "status_of (run (init True) error_trace) = Running" by code_simp
  have l: "lines (run (init True) error_trace) \<noteq> []" by code_simp
  have v: "status_of (run (reset (run (init True) error_trace)) restart) = Running"
    by code_simp
  note T = reset_effect [where s = "run (init True) error_trace" and i = 0
      and evs = restart and raw = "Some step_event"]
  have 1: "status_of (reset (run (init True) error_trace)) = Idle" using T by blast
  have 2: "lines (reset (run (init True) error_trace)) = []" using T by blast
  have 3: "step (run (reset (run (init True) error_trace)) restart)
      (WsMessage 0 (Some step_event)) = run (reset (run (init True) error_trace)) restart"
    using T r k by blast
  from r k u l v 1 2 3 show ?thesis by blast
qed

text \<open>
  After a reset an event source that was opened before it, and is not the one held in
  \<open>connRef\<close>, is still open; the step it delivers is appended to the cleared log.
\<close>

theorem stale_event_after_reset_counterexample:
  "status_of (run (init True) reset_trace) = Idle \<and>
   lines (run (init True) reset_trace) = [] \<and>
   connRef (run (init True) reset_trace) = Some 2 \<and>
   has_kind EventSource 1 (run (init True) reset_trace) \<and>
   is_open 1 (run (init True) reset_trace) \<and>
   lines (step (run (init True) reset_trace) (EsMessage 1 (Some step_event))) = [plan_line 1]"
  by code_simp

lemma complete_common:
  assumes d: "ptype d = ''complete''" and r: "connRef s = Some i" and o: "is_open i s"
    and c: "conns s' = conns s \<or> conns s' = (conns s)[i := (conns s ! i)\<lparr> wsCompleted := True \<rparr>]"
    and f: "connRef s' = connRef s" "done_st s' = done_st s" "running s' = running s"
      "lines s' = lines s" "idRef s' = idRef s" "error s' = error s"
  shows "status_of (handleEvent s' d) = Done \<and> result (handleEvent s' d) = presult d \<and>
    lines (handleEvent s' d) = lines s \<and> idRef (handleEvent s' d) = idRef s \<and>
    error (handleEvent s' d) = error s \<and>
    closed (conns (handleEvent s' d) ! i) = Some CloseNoCode \<and>
    is_closed i (handleEvent s' d)"
proof -
  from o have il: "i < length (conns s)" and op: "closed (conns s ! i) = None"
    by (simp_all add: is_open_def)
  from c il op have il': "i < length (conns s')" and op': "closed (conns s' ! i) = None"
    by auto
  have e: "handleEvent s' d =
      (s'\<lparr> result := presult d, done_st := True, running := False, termCollapsed := True \<rparr>)
        \<lparr> conns := closing CloseNoCode s' \<rparr>"
    using d by (simp add: handleEvent_def close_connRef_eq closing_complete)
  have n: "closing CloseNoCode s' ! i = close_conn CloseNoCode (conns s' ! i)"
    using il' r f(1) by (simp add: closing_nth split: transport.splits)
  have cl: "closed (closing CloseNoCode s' ! i) = Some CloseNoCode"
    unfolding n using op' by (rule close_conn_open)
  show ?thesis
    using cl il' f by (simp add: e status_of_def is_closed_def)
qed

text \<open>
  C3 (amended). A \<open>complete\<close> event from the open transport held in \<open>connRef\<close> makes the
  status \<open>Done\<close>, stores the payload as the result, appends nothing and closes that
  transport with \<open>close()\<close>. From then on the browser delivers no message from it (and no
  \<open>error\<close> of an event source), and the \<open>close\<close> event of the completed socket opens no
  fallback: these events change nothing in any later state. \<open>handleEvent\<close> itself has no
  test of the status.
\<close>

theorem complete_event:
  "ptype d = ''complete'' \<Longrightarrow> connRef s = Some i \<Longrightarrow> is_open i s \<Longrightarrow>
   (has_kind WebSocket i s \<longrightarrow>
      status_of (step s (WsMessage i (Some d))) = Done \<and>
      result (step s (WsMessage i (Some d))) = presult d \<and>
      lines (step s (WsMessage i (Some d))) = lines s \<and>
      closed (conns (step s (WsMessage i (Some d))) ! i) = Some CloseNoCode \<and>
      step (run (step s (WsMessage i (Some d))) evs) (WsMessage i raw) =
        run (step s (WsMessage i (Some d))) evs \<and>
      step (run (step s (WsMessage i (Some d))) evs) (WsClose i code) =
        run (step s (WsMessage i (Some d))) evs) \<and>
   (has_kind EventSource i s \<longrightarrow>
      status_of (step s (EsMessage i (Some d))) = Done \<and>
      result (step s (EsMessage i (Some d))) = presult d \<and>
      lines (step s (EsMessage i (Some d))) = lines s \<and>
      closed (conns (step s (EsMessage i (Some d))) ! i) = Some CloseNoCode \<and>
      step (run (step s (EsMessage i (Some d))) evs) (EsMessage i raw) =
        run (step s (EsMessage i (Some d))) evs \<and>
      step (run (step s (EsMessage i (Some d))) evs) (EsError i) =
        run (step s (EsMessage i (Some d))) evs)"
proof -
  assume d: "ptype d = ''complete''" and r: "connRef s = Some i" and o: "is_open i s"
  from o have il: "i < length (conns s)" by (simp add: is_open_def)
  have ws: "has_kind WebSocket i s \<longrightarrow>
      status_of (step s (WsMessage i (Some d))) = Done \<and>
      result (step s (WsMessage i (Some d))) = presult d \<and>
      lines (step s (WsMessage i (Some d))) = lines s \<and>
      closed (conns (step s (WsMessage i (Some d))) ! i) = Some CloseNoCode \<and>
      step (run (step s (WsMessage i (Some d))) evs) (WsMessage i raw) =
        run (step s (WsMessage i (Some d))) evs \<and>
      step (run (step s (WsMessage i (Some d))) evs) (WsClose i code) =
        run (step s (WsMessage i (Some d))) evs"
  proof
    assume k: "has_kind WebSocket i s"
    let ?m = "s\<lparr> conns := (conns s)[i := (conns s ! i)\<lparr> wsCompleted := True \<rparr>] \<rparr>"
    let ?t = "handleEvent ?m d"
    have st: "step s (WsMessage i (Some d)) = ?t"
      using k o d by (simp add: ws_onmessage_def)
    have c: "status_of ?t = Done \<and> result ?t = presult d \<and> lines ?t = lines s \<and>
        idRef ?t = idRef s \<and> error ?t = error s \<and>
        closed (conns ?t ! i) = Some CloseNoCode \<and> is_closed i ?t"
      by (rule complete_common [OF d r o]) simp_all
    have "is_completed i ?m" using il by (simp add: is_completed_def)
    then have "is_completed i ?t" by (rule is_completed_handleEvent)
    then have co: "is_completed i (run ?t evs)" by (rule is_completed_run)
    from c have cl: "is_closed i (run ?t evs)" using is_closed_run by blast
    from c closed_drops(2) [OF cl] completed_close [OF co]
    show "status_of (step s (WsMessage i (Some d))) = Done \<and>
      result (step s (WsMessage i (Some d))) = presult d \<and>
      lines (step s (WsMessage i (Some d))) = lines s \<and>
      closed (conns (step s (WsMessage i (Some d))) ! i) = Some CloseNoCode \<and>
      step (run (step s (WsMessage i (Some d))) evs) (WsMessage i raw) =
        run (step s (WsMessage i (Some d))) evs \<and>
      step (run (step s (WsMessage i (Some d))) evs) (WsClose i code) =
        run (step s (WsMessage i (Some d))) evs"
      unfolding st by blast
  qed
  have es: "has_kind EventSource i s \<longrightarrow>
      status_of (step s (EsMessage i (Some d))) = Done \<and>
      result (step s (EsMessage i (Some d))) = presult d \<and>
      lines (step s (EsMessage i (Some d))) = lines s \<and>
      closed (conns (step s (EsMessage i (Some d))) ! i) = Some CloseNoCode \<and>
      step (run (step s (EsMessage i (Some d))) evs) (EsMessage i raw) =
        run (step s (EsMessage i (Some d))) evs \<and>
      step (run (step s (EsMessage i (Some d))) evs) (EsError i) =
        run (step s (EsMessage i (Some d))) evs"
  proof
    assume k: "has_kind EventSource i s"
    let ?t = "handleEvent s d"
    have st: "step s (EsMessage i (Some d)) = ?t"
      using k o by (simp add: es_onmessage_def)
    have c: "status_of ?t = Done \<and> result ?t = presult d \<and> lines ?t = lines s \<and>
        idRef ?t = idRef s \<and> error ?t = error s \<and>
        closed (conns ?t ! i) = Some CloseNoCode \<and> is_closed i ?t"
      by (rule complete_common [OF d r o]) simp_all
    from c have cl: "is_closed i (run ?t evs)" using is_closed_run by blast
    from c closed_drops(3) [OF cl] closed_drops(4) [OF cl]
    show "status_of (step s (EsMessage i (Some d))) = Done \<and>
      result (step s (EsMessage i (Some d))) = presult d \<and>
      lines (step s (EsMessage i (Some d))) = lines s \<and>
      closed (conns (step s (EsMessage i (Some d))) ! i) = Some CloseNoCode \<and>
      step (run (step s (EsMessage i (Some d))) evs) (EsMessage i raw) =
        run (step s (EsMessage i (Some d))) evs \<and>
      step (run (step s (EsMessage i (Some d))) evs) (EsError i) =
        run (step s (EsMessage i (Some d))) evs"
      unfolding st by blast
  qed
  from ws es show ?thesis by blast
qed

theorem complete_event_witness:
  "ptype complete_event = ''complete'' \<and>
   connRef (run (init True) error_trace) = Some 0 \<and>
   is_open 0 (run (init True) error_trace) \<and>
   has_kind WebSocket 0 (run (init True) error_trace) \<and>
   status_of (run (init True) error_trace) = Running \<and>
   status_of (step (run (init True) error_trace) (WsMessage 0 (Some complete_event))) = Done \<and>
   result (step (run (init True) error_trace) (WsMessage 0 (Some complete_event))) =
     Some (ResearchResult ''verdict'') \<and>
   step (run (step (run (init True) error_trace) (WsMessage 0 (Some complete_event))) [])
       (WsMessage 0 (Some step_event)) =
     run (step (run (init True) error_trace) (WsMessage 0 (Some complete_event))) [] \<and>
   connRef (run (init False) sse_trace) = Some 0 \<and>
   is_open 0 (run (init False) sse_trace) \<and>
   has_kind EventSource 0 (run (init False) sse_trace) \<and>
   status_of (step (run (init False) sse_trace) (EsMessage 0 (Some complete_event))) = Done"
proof -
  have d: "ptype complete_event = ''complete''" by code_simp
  have p: "presult complete_event = Some (ResearchResult ''verdict'')" by code_simp
  have r: "connRef (run (init True) error_trace) = Some 0" by code_simp
  have o: "is_open 0 (run (init True) error_trace)" by code_simp
  have k: "has_kind WebSocket 0 (run (init True) error_trace)" by code_simp
  have u: "status_of (run (init True) error_trace) = Running" by code_simp
  have r': "connRef (run (init False) sse_trace) = Some 0" by code_simp
  have o': "is_open 0 (run (init False) sse_trace)" by code_simp
  have k': "has_kind EventSource 0 (run (init False) sse_trace)" by code_simp
  note T = complete_event [OF d r o, where evs = "[]" and raw = "Some step_event"]
  note U = complete_event [OF d r' o']
  have 1: "status_of (step (run (init True) error_trace) (WsMessage 0 (Some complete_event))) =
      Done"
    using T k by blast
  have 2: "result (step (run (init True) error_trace) (WsMessage 0 (Some complete_event))) =
     Some (ResearchResult ''verdict'')"
    using T k p by simp
  have 3: "step (run (step (run (init True) error_trace) (WsMessage 0 (Some complete_event))) [])
       (WsMessage 0 (Some step_event)) =
     run (step (run (init True) error_trace) (WsMessage 0 (Some complete_event))) []"
    using T k by blast
  have 4: "status_of (step (run (init False) sse_trace) (EsMessage 0 (Some complete_event))) =
      Done"
    using U k' by blast
  from d r o k u 1 2 3 r' o' k' 4 show ?thesis by blast
qed

text \<open>
  After \<open>complete\<close> has made the session \<open>Done\<close>, the event source that is not held in
  \<open>connRef\<close> is still open, and the step it delivers is appended to the log.
\<close>

theorem event_after_complete_counterexample:
  "status_of (run (init True) done_trace) = Done \<and>
   lines (run (init True) done_trace) = [] \<and>
   has_kind EventSource 1 (run (init True) done_trace) \<and>
   is_open 1 (run (init True) done_trace) \<and>
   lines (step (run (init True) done_trace) (EsMessage 1 (Some step_event))) = [plan_line 1]"
  by code_simp

section \<open>One handler of the socket at a time\<close>

text \<open>
  Each handler of the socket, taken alone, opens one event source for the request of
  that socket; and the failure of an open event source ends a session that is not done
  in \<open>Error\<close>, with the message of \<open>es.onerror\<close>.
\<close>

lemma fallbacks_fallbackToSSE: "fallbacks (fallbackToSSE s r) = fallbacks s @ [r]"
  by (simp add: fallbacks_def fallbackToSSE_def new_conn_def)

lemma fallbacks_close_at: "fallbacks (close_at i cc s) = fallbacks s"
  by (simp add: fallbacks_def close_at_eq fallbacks_update)

lemma ws_onerror_fallback:
  "has_kind WebSocket i s \<Longrightarrow> fallbacks (step s (WsError i)) = fallbacks s @ [req (conns s ! i)]"
  by (simp add: ws_onerror_def fallbacks_fallbackToSSE fallbacks_close_at)

lemma ws_onclose_fallback:
  "has_kind WebSocket i s \<Longrightarrow> \<not> wsCompleted (conns s ! i) \<Longrightarrow> code \<noteq> 1000 \<Longrightarrow>
   fallbacks (step s (WsClose i code)) = fallbacks s @ [req (conns s ! i)]"
  by (simp add: ws_onclose_def fallbacks_fallbackToSSE)

lemma es_onerror_status:
  "has_kind EventSource i s \<Longrightarrow> is_open i s \<Longrightarrow> \<not> done_st s \<Longrightarrow>
   status_of (step s (EsError i)) = Error \<and>
   error (step s (EsError i)) = ''Server connection failed. Run: cd server && node index.js'' \<and>
   wsStatus (step s (EsError i)) = StError \<and> is_closed i (step s (EsError i))"
  by (simp add: es_onerror_def close_at_eq addLine_def status_of_def is_closed_def
      is_open_def has_kind_def)

end
